theory Spec2Isabelle
  imports Complex_Main "HOL-Library.Multiset"
begin

section \<open>Data model\<close>

text \<open>
  The dashboard of \<^verbatim>\<open>App.tsx\<close> works on the records of \<^verbatim>\<open>agencies.json\<close>:
  an agency has a name and a series of yearly records (interfaces \<^verbatim>\<open>Agency\<close> and
  \<^verbatim>\<open>AgencyData\<close> of \<^verbatim>\<open>ChartSection.tsx\<close>). A JavaScript number read from JSON is
  finite; it is modelled as a rational, and the sign of a difference of two such numbers
  (all that a sort comparator uses) is the sign of the exact difference.
\<close>

record AgencyData =
  year :: int
  wordCount :: rat
  avgSentenceLength :: rat
  restrictiveness :: rat
  sentiment :: rat

record Agency =
  agency :: string
  data :: "AgencyData list"

text \<open>The four metrics that the tables and the filter buttons name, and their keys.\<close>

datatype metric = WordCount | AvgSentenceLength | Restrictiveness | Sentiment

fun metric_key :: "metric \<Rightarrow> string" where
  "metric_key WordCount = ''wordCount''"
| "metric_key AvgSentenceLength = ''avgSentenceLength''"
| "metric_key Restrictiveness = ''restrictiveness''"
| "metric_key Sentiment = ''sentiment''"

fun metric_value :: "metric \<Rightarrow> AgencyData \<Rightarrow> rat" where
  "metric_value WordCount d = wordCount d"
| "metric_value AvgSentenceLength d = avgSentenceLength d"
| "metric_value Restrictiveness d = restrictiveness d"
| "metric_value Sentiment d = sentiment d"

section \<open>JavaScript primitives used by the code\<close>

datatype js_error = TypeError

text \<open>Sequencing of computations that may throw: the first exception wins.\<close>

fun ebind :: "js_error + 'a \<Rightarrow> ('a \<Rightarrow> js_error + 'b) \<Rightarrow> js_error + 'b" where
  "ebind (Inl e) f = Inl e"
| "ebind (Inr v) f = f v"

text \<open>
  \<^verbatim>\<open>xs[i]\<close>: the element, or \<^verbatim>\<open>undefined\<close> (here \<open>None\<close>) when \<open>i\<close> is not an
  index of the array; \<^verbatim>\<open>xs[xs.length - 1]\<close> of an empty array reads index \<open>-1\<close>.
\<close>

definition at_index :: "'a list \<Rightarrow> int \<Rightarrow> 'a option" where
  "at_index xs i = (if 0 \<le> i \<and> i < int (length xs) then Some (xs ! nat i) else None)"

text \<open>
  \<^verbatim>\<open>d[key]\<close> on a yearly record, as a number: \<open>None\<close> stands for a value that is
  not a number (\<^verbatim>\<open>undefined\<close> for an absent key, or an inherited member of the object),
  which arithmetic turns into \<^verbatim>\<open>NaN\<close>.
\<close>

definition get_prop :: "AgencyData \<Rightarrow> string \<Rightarrow> rat option" where
  "get_prop d k =
     (if k = ''year'' then Some (of_int (year d))
      else if k = ''wordCount'' then Some (wordCount d)
      else if k = ''avgSentenceLength'' then Some (avgSentenceLength d)
      else if k = ''restrictiveness'' then Some (restrictiveness d)
      else if k = ''sentiment'' then Some (sentiment d)
      else None)"

text \<open>
  \<^verbatim>\<open>r[key]\<close> where \<open>r\<close> is the result of an array read: reading a property of
  \<^verbatim>\<open>undefined\<close> throws a \<^verbatim>\<open>TypeError\<close>.
\<close>

fun read_prop :: "AgencyData option \<Rightarrow> string \<Rightarrow> js_error + rat option" where
  "read_prop None k = Inl TypeError"
| "read_prop (Some d) k = Inr (get_prop d k)"

text \<open>\<^verbatim>\<open>x - y\<close>; \<open>None\<close> is \<^verbatim>\<open>NaN\<close>.\<close>

fun js_sub :: "rat option \<Rightarrow> rat option \<Rightarrow> rat option" where
  "js_sub (Some x) (Some y) = Some (x - y)"
| "js_sub _ _ = None"

text \<open>
  \<^verbatim>\<open>Array.prototype.sort(comparefn)\<close>. The language requires a stable sort in which
  \<open>x\<close> precedes \<open>y\<close> when \<^verbatim>\<open>comparefn(x, y)\<close> is negative, a \<^verbatim>\<open>NaN\<close> result counts
  as \<open>0\<close>, and an exception of the comparator ends the sort. The algorithm is left to the
  engine; the model inserts each element into the sorted rest, in front of the first
  element it does not have to follow.
\<close>

fun stays_before :: "rat option \<Rightarrow> bool" where
  "stays_before None = True"
| "stays_before (Some v) = (v \<le> 0)"

fun js_insert :: "('a \<Rightarrow> 'a \<Rightarrow> js_error + rat option) \<Rightarrow> 'a \<Rightarrow> 'a list \<Rightarrow> js_error + 'a list" where
  "js_insert cmp x [] = Inr [x]"
| "js_insert cmp x (y # ys) =
     ebind (cmp x y) (\<lambda>v.
       if stays_before v then Inr (x # y # ys)
       else ebind (js_insert cmp x ys) (\<lambda>zs. Inr (y # zs)))"

fun js_sort :: "('a \<Rightarrow> 'a \<Rightarrow> js_error + rat option) \<Rightarrow> 'a list \<Rightarrow> js_error + 'a list" where
  "js_sort cmp [] = Inr []"
| "js_sort cmp (x # xs) = ebind (js_sort cmp xs) (js_insert cmp x)"

text \<open>
  \<^verbatim>\<open>xs.slice(s, e)\<close>: a negative bound counts from the end, and both bounds are cut
  to the array.
\<close>

definition js_slice :: "'a list \<Rightarrow> int \<Rightarrow> int \<Rightarrow> 'a list" where
  "js_slice xs s e =
     (let n = int (length xs);
          start = (if s < 0 then max (n + s) 0 else min s n);
          fin = (if e < 0 then max (n + e) 0 else min e n)
      in take (nat (fin - start)) (drop (nat start) xs))"

text \<open>
  \<^verbatim>\<open>s.toLowerCase()\<close> for names and queries written in ASCII: the letters \<open>A\<close> to
  \<open>Z\<close> become \<open>a\<close> to \<open>z\<close>, every other character is kept.
\<close>

definition lower_char :: "char \<Rightarrow> char" where
  "lower_char c =
     (if of_char c \<ge> (65::nat) \<and> of_char c \<le> (90::nat) then char_of (of_char c + (32::nat)) else c)"

definition toLowerCase :: "string \<Rightarrow> string" where
  "toLowerCase s = map lower_char s"

text \<open>\<^verbatim>\<open>s.includes(q)\<close>: \<open>q\<close> occurs in \<open>s\<close> as a contiguous substring.\<close>

fun is_prefix :: "string \<Rightarrow> string \<Rightarrow> bool" where
  "is_prefix [] s = True"
| "is_prefix (c # q) [] = False"
| "is_prefix (c # q) (d # s) = (c = d \<and> is_prefix q s)"

fun js_includes :: "string \<Rightarrow> string \<Rightarrow> bool" where
  "js_includes [] q = (q = [])"
| "js_includes (c # s) q = (is_prefix q (c # s) \<or> js_includes s q)"

section \<open>The year-restricted dataset\<close>

text \<open>
  \<^verbatim>\<open>filteredAgenciesData\<close>: every agency of the dataset, its series cut to the years
  2024 and 2025. The handlers below close over this list; it is their first argument.
\<close>

definition filteredAgenciesData :: "Agency list \<Rightarrow> Agency list" where
  "filteredAgenciesData agenciesData =
     map (\<lambda>a. a\<lparr>data := filter (\<lambda>d. year d \<in> set [2024, 2025]) (data a)\<rparr>) agenciesData"

section \<open>The filter handler, in its two copies\<close>

record app_state =
  selectedAgencies :: "Agency list"
  currentPage :: int

text \<open>Truthiness of the optional arguments: an array is truthy, an empty string is not.\<close>

fun truthy_str :: "string option \<Rightarrow> bool" where
  "truthy_str None = False"
| "truthy_str (Some s) = (s \<noteq> [])"

fun truthy_arr :: "string list option \<Rightarrow> bool" where
  "truthy_arr None = False"
| "truthy_arr (Some xs) = True"

text \<open>
  The comparators of the first copy (lines 32 to 36 and 39 to 43): both values are read
  from the last record of the agency's own series.
\<close>

definition last_value_r1 :: "string \<Rightarrow> Agency \<Rightarrow> js_error + rat option" where
  "last_value_r1 m a = read_prop (at_index (data a) (int (length (data a)) - 1)) m"

definition cmp_top3_r1 :: "string \<Rightarrow> Agency \<Rightarrow> Agency \<Rightarrow> js_error + rat option" where
  "cmp_top3_r1 m a b =
     ebind (last_value_r1 m a) (\<lambda>aValue.
     ebind (last_value_r1 m b) (\<lambda>bValue.
       Inr (js_sub bValue aValue)))"

definition cmp_bottom3_r1 :: "string \<Rightarrow> Agency \<Rightarrow> Agency \<Rightarrow> js_error + rat option" where
  "cmp_bottom3_r1 m a b =
     ebind (last_value_r1 m a) (\<lambda>aValue.
     ebind (last_value_r1 m b) (\<lambda>bValue.
       Inr (js_sub aValue bValue)))"

text \<open>
  The comparators of the second copy (lines 240 to 244 and 247 to 251): the record of
  \<open>b\<close> is read at the index \<^verbatim>\<open>a.data.length - 1\<close>.
\<close>

definition cmp_top3_r2 :: "string \<Rightarrow> Agency \<Rightarrow> Agency \<Rightarrow> js_error + rat option" where
  "cmp_top3_r2 m a b =
     ebind (read_prop (at_index (data a) (int (length (data a)) - 1)) m) (\<lambda>aValue.
     ebind (read_prop (at_index (data b) (int (length (data a)) - 1)) m) (\<lambda>bValue.
       Inr (js_sub bValue aValue)))"

definition cmp_bottom3_r2 :: "string \<Rightarrow> Agency \<Rightarrow> Agency \<Rightarrow> js_error + rat option" where
  "cmp_bottom3_r2 m a b =
     ebind (read_prop (at_index (data a) (int (length (data a)) - 1)) m) (\<lambda>aValue.
     ebind (read_prop (at_index (data b) (int (length (data a)) - 1)) m) (\<lambda>bValue.
       Inr (js_sub aValue bValue)))"

text \<open>
  The list \<^verbatim>\<open>filtered\<close> that \<^verbatim>\<open>handleFilter\<close> computes, with the comparators as
  arguments (the two copies differ in nothing else), branch by branch as in the source.
\<close>

definition filter_branches ::
  "(string \<Rightarrow> Agency \<Rightarrow> Agency \<Rightarrow> js_error + rat option) \<Rightarrow>
   (string \<Rightarrow> Agency \<Rightarrow> Agency \<Rightarrow> js_error + rat option) \<Rightarrow>
   Agency list \<Rightarrow> string \<Rightarrow> string list option \<Rightarrow> string option \<Rightarrow> js_error + Agency list" where
  "filter_branches cmp_top cmp_bottom fad filterType selected m =
     (if filterType = ''top3'' \<and> truthy_str m then
        ebind (js_sort (cmp_top (the m)) fad) (\<lambda>sorted. Inr (js_slice sorted 0 3))
      else if filterType = ''bottom3'' \<and> truthy_str m then
        ebind (js_sort (cmp_bottom (the m)) fad) (\<lambda>sorted. Inr (js_slice sorted 0 3))
      else if filterType = ''specific'' \<and> truthy_arr selected then
        Inr (filter (\<lambda>a. agency a \<in> set (the selected)) fad)
      else if filterType = ''search'' \<and> truthy_str m then
        Inr (filter (\<lambda>a. js_includes (toLowerCase (agency a)) (the m)) fad)
      else
        Inr (js_slice fad 0 3))"

definition filtered_r1 :: "Agency list \<Rightarrow> string \<Rightarrow> string list option \<Rightarrow> string option \<Rightarrow> js_error + Agency list" where
  "filtered_r1 = filter_branches cmp_top3_r1 cmp_bottom3_r1"

definition filtered_r2 :: "Agency list \<Rightarrow> string \<Rightarrow> string list option \<Rightarrow> string option \<Rightarrow> js_error + Agency list" where
  "filtered_r2 = filter_branches cmp_top3_r2 cmp_bottom3_r2"

text \<open>
  \<^verbatim>\<open>handleFilter\<close>: the selection is replaced and the page is set to 1; an exception
  leaves no new state.
\<close>

definition handleFilter_r1 ::
  "Agency list \<Rightarrow> string \<Rightarrow> string list option \<Rightarrow> string option \<Rightarrow> app_state \<Rightarrow> js_error + app_state" where
  "handleFilter_r1 fad filterType selected m st =
     ebind (filtered_r1 fad filterType selected m) (\<lambda>filtered.
       Inr (st\<lparr>selectedAgencies := filtered, currentPage := 1\<rparr>))"

definition handleFilter_r2 ::
  "Agency list \<Rightarrow> string \<Rightarrow> string list option \<Rightarrow> string option \<Rightarrow> app_state \<Rightarrow> js_error + app_state" where
  "handleFilter_r2 fad filterType selected m st =
     ebind (filtered_r2 fad filterType selected m) (\<lambda>filtered.
       Inr (st\<lparr>selectedAgencies := filtered, currentPage := 1\<rparr>))"

text \<open>
  \<^verbatim>\<open>handleSearch\<close> of \<^verbatim>\<open>FilterBar.tsx\<close>: the text of the search box is lower-cased and
  passed on as the third argument of \<^verbatim>\<open>onFilter\<close>, which is \<^verbatim>\<open>handleFilter\<close>. The
  text that the box itself keeps is not part of the state modelled here.
\<close>

definition handleSearch_r1 :: "Agency list \<Rightarrow> string \<Rightarrow> app_state \<Rightarrow> js_error + app_state" where
  "handleSearch_r1 fad query st = handleFilter_r1 fad ''search'' None (Some (toLowerCase query)) st"

definition handleSearch_r2 :: "Agency list \<Rightarrow> string \<Rightarrow> app_state \<Rightarrow> js_error + app_state" where
  "handleSearch_r2 fad query st = handleFilter_r2 fad ''search'' None (Some (toLowerCase query)) st"

section \<open>The table section: sort states, sorting, pagination\<close>

datatype direction = Asc | Desc

text \<open>
  A column is the literal \<^verbatim>\<open>"agency"\<close> or the text of a year, which \<^verbatim>\<open>Number\<close>
  reads back as that year.
\<close>

datatype column = ColAgency | ColYear int

record sort_state =
  column :: "column option"
  direction :: "direction option"

type_synonym sort_states = "metric \<Rightarrow> sort_state"

definition sortStates_init_r1 :: sort_states where
  "sortStates_init_r1 = (\<lambda>m. \<lparr>column = None, direction = None\<rparr>)"

definition sortStates_init_r2 :: sort_states where
  "sortStates_init_r2 = (\<lambda>m. \<lparr>column = Some (ColYear 2025), direction = Some Desc\<rparr>)"

text \<open>\<^verbatim>\<open>handleSort\<close> (the same text in both copies).\<close>

definition handleSort :: "metric \<Rightarrow> column \<Rightarrow> sort_states \<Rightarrow> sort_states" where
  "handleSort m col prev =
     (let current = prev m;
          newDirection = (if column current = Some col \<and> direction current = Some Asc then Desc else Asc)
      in prev(m := \<lparr>column = Some col, direction = Some newDirection\<rparr>))"

text \<open>
  The value that the table comparator reads:
  \<^verbatim>\<open>a.data.find((d) => d.year === y)?.[metric] || 0\<close>.
\<close>

definition year_value :: "metric \<Rightarrow> int \<Rightarrow> Agency \<Rightarrow> rat" where
  "year_value m y a = (case find (\<lambda>d. year d = y) (data a) of None \<Rightarrow> 0 | Some d \<Rightarrow> metric_value m d)"

text \<open>
  The comparator of \<^verbatim>\<open>getSortedAgencies\<close>. \<^verbatim>\<open>localeCompare\<close> belongs to the
  engine's locale data and is the parameter \<open>lc\<close>.
\<close>

definition cmp_sorted ::
  "(string \<Rightarrow> string \<Rightarrow> int) \<Rightarrow> column \<Rightarrow> direction \<Rightarrow> metric \<Rightarrow> Agency \<Rightarrow> Agency \<Rightarrow> js_error + rat option" where
  "cmp_sorted lc col dir m a b =
     (case col of
        ColAgency \<Rightarrow>
          Inr (Some (of_int (if dir = Asc then lc (agency a) (agency b) else lc (agency b) (agency a))))
      | ColYear y \<Rightarrow>
          (let aValue = year_value m y a; bValue = year_value m y b
           in Inr (Some (if dir = Asc then aValue - bValue else bValue - aValue))))"

definition getSortedAgencies ::
  "(string \<Rightarrow> string \<Rightarrow> int) \<Rightarrow> Agency list \<Rightarrow> sort_states \<Rightarrow> metric \<Rightarrow> js_error + Agency list" where
  "getSortedAgencies lc fad sortStates m =
     (let sortState = sortStates m in
      case column sortState of
        None \<Rightarrow> Inr fad
      | Some col \<Rightarrow>
          (case direction sortState of
             None \<Rightarrow> Inr fad
           | Some dir \<Rightarrow> js_sort (cmp_sorted lc col dir m) fad))"

definition agenciesPerPage :: int where
  "agenciesPerPage = 5"

definition totalPages :: "Agency list \<Rightarrow> int" where
  "totalPages fad = \<lceil>rat_of_nat (length fad) / rat_of_int agenciesPerPage\<rceil>"

definition startIndex :: "app_state \<Rightarrow> int" where
  "startIndex st = (currentPage st - 1) * agenciesPerPage"

text \<open>
  The rows of the table of metric \<open>m\<close>. In the first copy \<^verbatim>\<open>paginatedAgencies\<close> is
  computed once, from \<^verbatim>\<open>getSortedAgencies("wordCount")\<close>, and every table shows it; in
  the second copy it is computed inside the loop over the metrics.
\<close>

definition paginatedAgencies_r1 ::
  "(string \<Rightarrow> string \<Rightarrow> int) \<Rightarrow> Agency list \<Rightarrow> app_state \<Rightarrow> sort_states \<Rightarrow> js_error + Agency list" where
  "paginatedAgencies_r1 lc fad st sortStates =
     ebind (getSortedAgencies lc fad sortStates WordCount) (\<lambda>sorted.
       Inr (js_slice sorted (startIndex st) (startIndex st + agenciesPerPage)))"

definition table_rows_r1 ::
  "(string \<Rightarrow> string \<Rightarrow> int) \<Rightarrow> Agency list \<Rightarrow> app_state \<Rightarrow> sort_states \<Rightarrow> metric \<Rightarrow> js_error + Agency list" where
  "table_rows_r1 lc fad st sortStates m = paginatedAgencies_r1 lc fad st sortStates"

definition table_rows_r2 ::
  "(string \<Rightarrow> string \<Rightarrow> int) \<Rightarrow> Agency list \<Rightarrow> app_state \<Rightarrow> sort_states \<Rightarrow> metric \<Rightarrow> js_error + Agency list" where
  "table_rows_r2 lc fad st sortStates m =
     ebind (getSortedAgencies lc fad sortStates m) (\<lambda>sortedAgencies.
       Inr (js_slice sortedAgencies (startIndex st) (startIndex st + agenciesPerPage)))"

text \<open>The handlers of the buttons Previous and Next.\<close>

definition previousPage :: "app_state \<Rightarrow> app_state" where
  "previousPage st = st\<lparr>currentPage := max (currentPage st - 1) 1\<rparr>"

definition nextPage :: "Agency list \<Rightarrow> app_state \<Rightarrow> app_state" where
  "nextPage fad st = st\<lparr>currentPage := min (currentPage st + 1) (totalPages fad)\<rparr>"

section \<open>Notions of the specification\<close>

text \<open>
  The value that the filter comparators of the first copy read from an agency with a
  non-empty series: the metric of the last record.
\<close>

definition last_record_value :: "metric \<Rightarrow> Agency \<Rightarrow> rat" where
  "last_record_value m a = metric_value m (last (data a))"

text \<open>
  In the words of the specification: the latest-year value of a metric is the value in
  the record whose year is the greatest of the series, and \<open>topN\<close> keeps the \<open>n\<close>
  agencies with the largest such value, by a stable sort.
\<close>

definition latest_year_value :: "metric \<Rightarrow> Agency \<Rightarrow> rat" where
  "latest_year_value m a =
     (case find (\<lambda>d. \<forall>d'\<in>set (data a). year d' \<le> year d) (data a) of
        None \<Rightarrow> 0 | Some d \<Rightarrow> metric_value m d)"

definition topN_spec :: "metric \<Rightarrow> nat \<Rightarrow> Agency list \<Rightarrow> Agency list" where
  "topN_spec m n ags = take n (sort_key (\<lambda>a. - latest_year_value m a) ags)"

text \<open>
  The series of the data model: an ordered sequence with at most one record per year,
  here with at least one record.
\<close>

definition series_ok :: "Agency \<Rightarrow> bool" where
  "series_ok a = (data a \<noteq> [] \<and> sorted_wrt (\<lambda>d d'. year d < year d') (data a))"


section \<open>Sample data\<close>

definition sample_record :: "int \<Rightarrow> rat \<Rightarrow> AgencyData" where
  "sample_record y v =
     \<lparr>year = y, wordCount = v, avgSentenceLength = v, restrictiveness = v, sentiment = v\<rparr>"

definition sample_agency :: "string \<Rightarrow> rat \<Rightarrow> Agency" where
  "sample_agency name v = \<lparr>agency = name, data = [sample_record 2024 v]\<rparr>"

definition st0 :: app_state where
  "st0 = \<lparr>selectedAgencies = [], currentPage = 1\<rparr>"

definition agA :: Agency where "agA = sample_agency ''A'' 10"
definition agB :: Agency where "agB = sample_agency ''B'' 30"
definition agC :: Agency where "agC = sample_agency ''C'' 20"
definition agD :: Agency where "agD = sample_agency ''D'' 5"
definition agF :: Agency where "agF = sample_agency ''F'' 40"
definition agG :: Agency where "agG = sample_agency ''G'' 50"

text \<open>An agency none of whose records is of 2024 or 2025.\<close>

definition agE :: Agency where
  "agE = \<lparr>agency = ''E'', data = []\<rparr>"

text \<open>Six agencies with the same values.\<close>

definition tied6 :: "Agency list" where
  "tied6 = map (\<lambda>name. sample_agency name 0) [''T1'', ''T2'', ''T3'', ''T4'', ''T5'', ''T6'']"

text \<open>Two agencies whose series have different lengths.\<close>

definition agX :: Agency where
  "agX = \<lparr>agency = ''X'', data = [sample_record 2024 100, sample_record 2025 1]\<rparr>"

definition agY :: Agency where
  "agY = \<lparr>agency = ''Y'', data = [sample_record 2025 50]\<rparr>"

text \<open>A series that ends with the record of its earlier year, and one in ascending order.\<close>

definition agU :: Agency where
  "agU = \<lparr>agency = ''U'', data = [sample_record 2025 5, sample_record 2024 100]\<rparr>"

definition agV :: Agency where
  "agV = \<lparr>agency = ''V'', data = [sample_record 2024 1, sample_record 2025 50]\<rparr>"

definition treasury :: Agency where
  "treasury = sample_agency ''Department of the Treasury'' 7"

definition twelve :: "Agency list" where
  "twelve = map (\<lambda>name. sample_agency name 1)
     [''A1'', ''A2'', ''A3'', ''A4'', ''A5'', ''A6'', ''A7'', ''A8'', ''A9'', ''A10'', ''A11'', ''A12'']"

text \<open>A dataset entry whose only record is of 2023; the year restriction empties its series.\<close>

definition agE_raw :: Agency where
  "agE_raw = \<lparr>agency = ''E'', data = [sample_record 2023 9]\<rparr>"

text \<open>A stand-in for \<^verbatim>\<open>localeCompare\<close> where the column sorted by is a year.\<close>

definition sample_lc :: "string \<Rightarrow> string \<Rightarrow> int" where
  "sample_lc a b = 0"




lemmas sample_defs =
  sample_record_def sample_agency_def st0_def agA_def agB_def agC_def agD_def

lemmas filter_defs =
  filtered_r1_def filtered_r2_def filter_branches_def handleFilter_r1_def handleFilter_r2_def
  cmp_top3_r1_def cmp_bottom3_r1_def cmp_top3_r2_def cmp_bottom3_r2_def last_value_r1_def
  at_index_def get_prop_def js_slice_def

lemmas table_defs =
  table_rows_r1_def table_rows_r2_def paginatedAgencies_r1_def getSortedAgencies_def
  cmp_sorted_def year_value_def startIndex_def agenciesPerPage_def js_slice_def
  sortStates_init_r1_def sortStates_init_r2_def handleSort_def


section \<open>Facts about the primitives and the comparators\<close>

lemma js_slice_0: "0 \<le> n \<Longrightarrow> js_slice xs 0 n = take (nat n) xs"
  by (auto simp: js_slice_def Let_def min_def)

lemma js_slice_0_3: "js_slice xs 0 3 = take 3 xs"
  using js_slice_0 [of 3 xs] by simp

lemma js_insert_key:
  assumes "\<forall>y\<in>set ys. \<exists>v. cmp x y = Inr v \<and> (stays_before v \<longleftrightarrow> f x \<le> f y)"
  shows "js_insert cmp x ys = Inr (insort_key f x ys)"
  using assms
proof (induction ys)
  case Nil
  then show ?case by simp
next
  case (Cons y ys)
  then obtain v where v: "cmp x y = Inr v" "stays_before v \<longleftrightarrow> f x \<le> f y"
    by auto
  from Cons have "js_insert cmp x ys = Inr (insort_key f x ys)"
    by simp
  with v show ?case by simp
qed

lemma js_sort_key:
  assumes "\<forall>x\<in>set xs. \<forall>y\<in>set xs. \<exists>v. cmp x y = Inr v \<and> (stays_before v \<longleftrightarrow> f x \<le> f y)"
  shows "js_sort cmp xs = Inr (sort_key f xs)"
  using assms
proof (induction xs)
  case Nil
  then show ?case by simp
next
  case (Cons x xs)
  then have IH: "js_sort cmp xs = Inr (sort_key f xs)"
    by simp
  have "\<forall>y\<in>set (sort_key f xs). \<exists>v. cmp x y = Inr v \<and> (stays_before v \<longleftrightarrow> f x \<le> f y)"
    using Cons.prems by simp
  then have "js_insert cmp x (sort_key f xs) = Inr (insort_key f x (sort_key f xs))"
    by (rule js_insert_key)
  with IH show ?case by simp
qed

lemma at_index_last: "xs \<noteq> [] \<Longrightarrow> at_index xs (int (length xs) - 1) = Some (last xs)"
  by (cases xs rule: rev_cases) (auto simp: at_index_def nth_append)

lemma at_index_empty: "at_index [] i = None"
  by (simp add: at_index_def)

lemma get_prop_metric: "get_prop d (metric_key m) = Some (metric_value m d)"
  by (cases m) (simp_all add: get_prop_def)

lemma last_value_r1_metric:
  "data a \<noteq> [] \<Longrightarrow> last_value_r1 (metric_key m) a = Inr (Some (last_record_value m a))"
  by (simp add: last_value_r1_def at_index_last get_prop_metric last_record_value_def)

lemma cmp_top3_r1_metric:
  "data a \<noteq> [] \<Longrightarrow> data b \<noteq> [] \<Longrightarrow>
   cmp_top3_r1 (metric_key m) a b = Inr (Some (last_record_value m b - last_record_value m a))"
  by (simp add: cmp_top3_r1_def last_value_r1_metric)

lemma cmp_bottom3_r1_metric:
  "data a \<noteq> [] \<Longrightarrow> data b \<noteq> [] \<Longrightarrow>
   cmp_bottom3_r1 (metric_key m) a b = Inr (Some (last_record_value m a - last_record_value m b))"
  by (simp add: cmp_bottom3_r1_def last_value_r1_metric)

lemma metric_key_nonempty: "metric_key m \<noteq> []"
  by (cases m) simp_all

lemma sort_top3_r1:
  assumes "\<forall>a\<in>set fad. data a \<noteq> []"
  shows "js_sort (cmp_top3_r1 (metric_key m)) fad = Inr (sort_key (\<lambda>a. - last_record_value m a) fad)"
  by (rule js_sort_key) (use assms in \<open>auto simp: cmp_top3_r1_metric\<close>)

lemma sort_bottom3_r1:
  assumes "\<forall>a\<in>set fad. data a \<noteq> []"
  shows "js_sort (cmp_bottom3_r1 (metric_key m)) fad = Inr (sort_key (last_record_value m) fad)"
  by (rule js_sort_key) (use assms in \<open>auto simp: cmp_bottom3_r1_metric\<close>)

lemma filtered_r1_top3:
  assumes "\<forall>a\<in>set fad. data a \<noteq> []"
  shows "filtered_r1 fad ''top3'' sel (Some (metric_key m)) =
         Inr (take 3 (sort_key (\<lambda>a. - last_record_value m a) fad))"
  by (simp add: filtered_r1_def filter_branches_def metric_key_nonempty sort_top3_r1 [OF assms] js_slice_0_3)

lemma filtered_r1_bottom3:
  assumes "\<forall>a\<in>set fad. data a \<noteq> []"
  shows "filtered_r1 fad ''bottom3'' sel (Some (metric_key m)) =
         Inr (take 3 (sort_key (last_record_value m) fad))"
  by (simp add: filtered_r1_def filter_branches_def metric_key_nonempty sort_bottom3_r1 [OF assms] js_slice_0_3)

lemma find_skip:
  "\<forall>d\<in>set ds. \<not> P d \<Longrightarrow> find P (ds @ ys) = find P ys"
  by (induction ds) simp_all

lemma find_max_year_last:
  assumes "sorted_wrt (\<lambda>d d'. year d < year d') (ds @ [l])"
  shows "find (\<lambda>d. \<forall>d'\<in>set (ds @ [l]). year d' \<le> year d) (ds @ [l]) = Some l"
proof -
  have lt: "\<forall>d\<in>set ds. year d < year l"
    using assms by (simp add: sorted_wrt_append)
  have "\<forall>d\<in>set ds. \<not> (\<forall>d'\<in>set (ds @ [l]). year d' \<le> year d)"
    using lt by auto
  then have "find (\<lambda>d. \<forall>d'\<in>set (ds @ [l]). year d' \<le> year d) (ds @ [l])
        = find (\<lambda>d. \<forall>d'\<in>set (ds @ [l]). year d' \<le> year d) [l]"
    by (rule find_skip)
  also have "\<dots> = Some l"
    using lt by (auto simp: less_imp_le)
  finally show ?thesis .
qed

lemma latest_year_value_last:
  assumes "series_ok a"
  shows "latest_year_value m a = last_record_value m a"
proof -
  from assms obtain ds l where dl: "data a = ds @ [l]"
    by (cases "data a" rule: rev_cases) (auto simp: series_ok_def)
  with assms have "sorted_wrt (\<lambda>d d'. year d < year d') (ds @ [l])"
    by (simp add: series_ok_def)
  then have "find (\<lambda>d. \<forall>d'\<in>set (ds @ [l]). year d' \<le> year d) (ds @ [l]) = Some l"
    by (rule find_max_year_last)
  then show ?thesis
    by (simp add: latest_year_value_def last_record_value_def dl)
qed

lemma sort_key_cong_set:
  "(\<And>x. x \<in> set xs \<Longrightarrow> f x = g x) \<Longrightarrow> sort_key f xs = sort_key g xs"
proof (induction xs)
  case Nil then show ?case by simp
next
  case (Cons x xs)
  have "insort_key f x ys = insort_key g x ys" if "set ys \<subseteq> set xs" for ys
    using that Cons.prems by (induction ys) auto
  then show ?case using Cons by simp
qed

lemma sorted_desc_iff:
  fixes f :: "'a \<Rightarrow> rat"
  shows "sorted (map (\<lambda>a. - f a) xs) = sorted_wrt (\<lambda>a b. f b \<le> f a) xs"
  by (induction xs) auto

lemma filter_eq_singleton:
  assumes "distinct (map f xs)" "k \<in> set xs"
  shows "filter (\<lambda>x. f k = f x) xs = [k]"
  using assms
proof (induction xs)
  case Nil then show ?case by simp
next
  case (Cons x xs)
  show ?case
  proof (cases "x = k")
    case True
    then have "\<forall>y\<in>set xs. f k \<noteq> f y" using Cons.prems by auto
    then have "filter (\<lambda>x. f k = f x) xs = []" by (simp add: filter_empty_conv)
    with True show ?thesis by simp
  next
    case False
    then have "k \<in> set xs" using Cons.prems by simp
    moreover have "f k \<noteq> f x" using Cons.prems(1) \<open>k \<in> set xs\<close> by (auto simp: image_iff)
    ultimately show ?thesis using Cons by simp
  qed
qed

lemma sort_key_rev_distinct:
  fixes f :: "'a \<Rightarrow> rat"
  assumes "distinct (map f xs)"
  shows "sort_key f xs = rev (sort_key (\<lambda>a. - f a) xs)"
proof (rule properties_for_sort_key)
  show "mset (rev (sort_key (\<lambda>a. - f a) xs)) = mset xs"
    by simp
next
  fix k assume "k \<in> set (rev (sort_key (\<lambda>a. - f a) xs))"
  then have k: "k \<in> set xs" by simp
  have "distinct (map f (rev (sort_key (\<lambda>a. - f a) xs)))"
    using assms
    by (metis distinct_map distinct_rev distinct_sort set_rev set_sort)
  then have "filter (\<lambda>x. f k = f x) (rev (sort_key (\<lambda>a. - f a) xs)) = [k]"
    using k by (intro filter_eq_singleton) simp_all
  moreover have "filter (\<lambda>x. f k = f x) xs = [k]"
    using assms k by (rule filter_eq_singleton)
  ultimately show "filter (\<lambda>x. f k = f x) (rev (sort_key (\<lambda>a. - f a) xs)) = filter (\<lambda>x. f k = f x) xs"
    by simp
next
  have "sorted (map (\<lambda>a. - f a) (sort_key (\<lambda>a. - f a) xs))"
    by (rule sorted_sort_key)
  then have "sorted_wrt (\<lambda>a b. f b \<le> f a) (sort_key (\<lambda>a. - f a) xs)"
    by (simp only: sorted_desc_iff)
  then have "sorted_wrt (\<lambda>a b. f a \<le> f b) (rev (sort_key (\<lambda>a. - f a) xs))"
    by (simp add: sorted_wrt_rev)
  then show "sorted (map f (rev (sort_key (\<lambda>a. - f a) xs)))"
    by (simp add: sorted_map)
qed

lemma take_rev_disjoint:
  assumes "distinct xs" "2 * n \<le> length xs"
  shows "set (take n xs) \<inter> set (take n (rev xs)) = {}"
proof -
  have "take n (rev xs) = rev (drop (length xs - n) xs)"
    by (simp add: take_rev)
  moreover have "set (take n xs) \<inter> set (drop (length xs - n) xs) = {}"
    using assms by (intro set_take_disj_set_drop_if_distinct) simp_all
  ultimately show ?thesis by simp
qed

subsection \<open>The sort: permutation, congruence, totality\<close>

lemma js_insert_mset:
  "js_insert cmp x ys = Inr zs \<Longrightarrow> mset zs = add_mset x (mset ys)"
proof (induction ys arbitrary: zs)
  case Nil
  then show ?case by auto
next
  case (Cons y ys)
  show ?case
  proof (cases "cmp x y")
    case (Inl e)
    with Cons.prems show ?thesis by simp
  next
    case (Inr v)
    show ?thesis
    proof (cases "stays_before v")
      case True
      with Inr Cons.prems show ?thesis by auto
    next
      case False
      with Inr Cons.prems obtain zs' where z: "js_insert cmp x ys = Inr zs'" "zs = y # zs'"
        by (cases "js_insert cmp x ys") auto
      with Cons.IH [of zs'] show ?thesis by simp
    qed
  qed
qed

lemma js_sort_mset:
  "js_sort cmp xs = Inr zs \<Longrightarrow> mset zs = mset xs"
proof (induction xs arbitrary: zs)
  case Nil
  then show ?case by simp
next
  case (Cons x xs)
  then obtain ys where ys: "js_sort cmp xs = Inr ys" "js_insert cmp x ys = Inr zs"
    by (cases "js_sort cmp xs") auto
  with Cons.IH [of ys] js_insert_mset [of cmp x ys zs] show ?case by simp
qed

lemma js_insert_cong:
  "\<forall>y\<in>set ys. cmp x y = cmp' x y \<Longrightarrow> js_insert cmp x ys = js_insert cmp' x ys"
proof (induction ys)
  case Nil
  then show ?case by simp
next
  case (Cons y ys)
  then have a: "cmp x y = cmp' x y" and b: "js_insert cmp x ys = js_insert cmp' x ys"
    by simp_all
  show ?case
    by (simp only: js_insert.simps a b)
qed

lemma js_sort_cong:
  assumes "\<forall>x\<in>set xs. \<forall>y\<in>set xs. cmp x y = cmp' x y"
  shows "js_sort cmp xs = js_sort cmp' xs"
  using assms
proof (induction xs)
  case Nil
  then show ?case by simp
next
  case (Cons x xs)
  then have IH: "js_sort cmp xs = js_sort cmp' xs" by simp
  show ?case
  proof (cases "js_sort cmp' xs")
    case (Inl e)
    with IH show ?thesis by simp
  next
    case (Inr ys)
    then have "set ys = set xs"
      using js_sort_mset [of cmp' xs ys] by (metis set_mset_mset)
    with Cons.prems have "\<forall>y\<in>set ys. cmp x y = cmp' x y" by simp
    then have "js_insert cmp x ys = js_insert cmp' x ys" by (rule js_insert_cong)
    with IH Inr show ?thesis by simp
  qed
qed

lemma js_insert_total:
  "\<forall>y\<in>set ys. \<exists>v. cmp x y = Inr v \<Longrightarrow> \<exists>zs. js_insert cmp x ys = Inr zs"
proof (induction ys)
  case Nil
  then show ?case by simp
next
  case (Cons y ys)
  then obtain v zs where "cmp x y = Inr v" "js_insert cmp x ys = Inr zs" by auto
  then show ?case by simp
qed

lemma js_sort_total:
  assumes "\<forall>x\<in>set xs. \<forall>y\<in>set xs. \<exists>v. cmp x y = Inr v"
  shows "\<exists>zs. js_sort cmp xs = Inr zs"
  using assms
proof (induction xs)
  case Nil
  then show ?case by simp
next
  case (Cons x xs)
  then obtain ys where ys: "js_sort cmp xs = Inr ys" by auto
  then have "set ys = set xs"
    using js_sort_mset [of cmp xs ys] by (metis set_mset_mset)
  with Cons.prems have "\<forall>y\<in>set ys. \<exists>v. cmp x y = Inr v" by simp
  then have "\<exists>zs. js_insert cmp x ys = Inr zs"
    by (rule js_insert_total)
  then obtain zs where "js_insert cmp x ys = Inr zs" ..
  with ys show ?case by simp
qed

lemma cmp_sorted_total: "\<exists>v. cmp_sorted lc col dir m a b = Inr v"
  by (cases col) (simp_all add: cmp_sorted_def Let_def)

lemma getSortedAgencies_total:
  "\<exists>zs. getSortedAgencies lc fad ss m = Inr zs \<and> mset zs = mset fad"
proof -
  have "\<exists>zs. js_sort (cmp_sorted lc col dir m) fad = Inr zs \<and> mset zs = mset fad" for col dir
  proof -
    have "\<exists>zs. js_sort (cmp_sorted lc col dir m) fad = Inr zs"
      by (rule js_sort_total) (simp add: cmp_sorted_total)
    then obtain zs where zs: "js_sort (cmp_sorted lc col dir m) fad = Inr zs" ..
    then have "mset zs = mset fad"
      by (rule js_sort_mset)
    with zs show ?thesis by simp
  qed
  then show ?thesis
    by (auto simp: getSortedAgencies_def Let_def split: option.splits)
qed

lemma last_value_r1_total:
  "data a \<noteq> [] \<Longrightarrow> \<exists>v. last_value_r1 k a = Inr v"
  by (simp add: last_value_r1_def at_index_last)

lemma filtered_r1_total:
  assumes "\<forall>a\<in>set fad. data a \<noteq> []"
  shows "\<exists>zs. filtered_r1 fad ft sel mk = Inr zs"
proof -
  have c: "\<exists>v. cmp_top3_r1 k a b = Inr v \<and> (\<exists>w. cmp_bottom3_r1 k a b = Inr w)"
    if "a \<in> set fad" "b \<in> set fad" for k a b
    using that assms last_value_r1_total [of a k] last_value_r1_total [of b k]
    by (auto simp: cmp_top3_r1_def cmp_bottom3_r1_def)
  have "\<exists>zs. js_sort (cmp_top3_r1 k) fad = Inr zs" for k
    by (rule js_sort_total) (use c in blast)
  moreover have "\<exists>zs. js_sort (cmp_bottom3_r1 k) fad = Inr zs" for k
    by (rule js_sort_total) (use c in blast)
  ultimately obtain ts bs where "js_sort (cmp_top3_r1 (the mk)) fad = Inr ts"
    "js_sort (cmp_bottom3_r1 (the mk)) fad = Inr bs"
    by blast
  then show ?thesis
    by (simp add: filtered_r1_def filter_branches_def)
qed

lemma cmp_r2_eq_r1:
  "length (data a) = length (data b) \<Longrightarrow>
   cmp_top3_r2 k a b = cmp_top3_r1 k a b \<and> cmp_bottom3_r2 k a b = cmp_bottom3_r1 k a b"
  by (simp add: cmp_top3_r2_def cmp_top3_r1_def cmp_bottom3_r2_def cmp_bottom3_r1_def last_value_r1_def)

lemma filtered_r2_eq_r1:
  assumes "\<forall>a\<in>set fad. \<forall>b\<in>set fad. length (data a) = length (data b)"
  shows "filtered_r2 fad ft sel mk = filtered_r1 fad ft sel mk"
proof -
  have "js_sort (cmp_top3_r2 k) fad = js_sort (cmp_top3_r1 k) fad" for k
    by (rule js_sort_cong) (use assms cmp_r2_eq_r1 in blast)
  moreover have "js_sort (cmp_bottom3_r2 k) fad = js_sort (cmp_bottom3_r1 k) fad" for k
    by (rule js_sort_cong) (use assms cmp_r2_eq_r1 in blast)
  ultimately show ?thesis
    by (simp add: filtered_r2_def filtered_r1_def filter_branches_def)
qed

subsection \<open>Strings\<close>

lemma toLowerCase_Nil_iff: "toLowerCase q = [] \<longleftrightarrow> q = []"
  by (simp add: toLowerCase_def)

lemma is_prefix_iff: "is_prefix q s \<longleftrightarrow> (\<exists>r. s = q @ r)"
  by (induction q s rule: is_prefix.induct) auto

lemma js_includes_iff: "js_includes s q \<longleftrightarrow> (\<exists>p r. s = p @ q @ r)"
proof (induction s)
  case Nil
  then show ?case by auto
next
  case (Cons c s)
  show ?case
  proof
    assume "js_includes (c # s) q"
    then consider "is_prefix q (c # s)" | "js_includes s q" by auto
    then show "\<exists>p r. c # s = p @ q @ r"
    proof cases
      case 1
      then obtain r where "c # s = q @ r" by (auto simp: is_prefix_iff)
      then have "c # s = [] @ q @ r" by simp
      then show ?thesis by blast
    next
      case 2
      then obtain p r where "s = p @ q @ r" using Cons.IH by auto
      then have "c # s = (c # p) @ q @ r" by simp
      then show ?thesis by blast
    qed
  next
    assume "\<exists>p r. c # s = p @ q @ r"
    then obtain p r where pr: "c # s = p @ q @ r" by auto
    show "js_includes (c # s) q"
    proof (cases p)
      case Nil
      with pr have "is_prefix q (c # s)" by (auto simp: is_prefix_iff)
      then show ?thesis by simp
    next
      case (Cons c' p')
      with pr have "s = p' @ q @ r" by simp
      then have "js_includes s q" using Cons.IH by blast
      then show ?thesis by simp
    qed
  qed
qed

subsection \<open>The handlers\<close>

lemma unknown_mode:
  "filterType \<notin> {''top3'', ''bottom3'', ''specific'', ''search''} \<Longrightarrow>
   filter_branches ct cb fad filterType sel m = Inr (take 3 fad)"
  by (simp add: filter_branches_def js_slice_0_3)

lemma handleFilter_r1_result:
  "handleFilter_r1 fad ft sel mk st = Inr st' \<Longrightarrow>
   filtered_r1 fad ft sel mk = Inr (selectedAgencies st') \<and> currentPage st' = 1"
  by (cases "filtered_r1 fad ft sel mk") (auto simp: handleFilter_r1_def)

lemma handleFilter_r2_result:
  "handleFilter_r2 fad ft sel mk st = Inr st' \<Longrightarrow>
   filtered_r2 fad ft sel mk = Inr (selectedAgencies st') \<and> currentPage st' = 1"
  by (cases "filtered_r2 fad ft sel mk") (auto simp: handleFilter_r2_def)

lemma totalPages_div: "totalPages fad = (int (length fad) + 4) div 5"
proof -
  have "totalPages fad = - ((- int (length fad)) div 5)"
    unfolding totalPages_def agenciesPerPage_def
    by (metis ceiling_divide_eq_div of_int_of_nat_eq)
  then show ?thesis by presburger
qed

lemma handleSort_other: "m' \<noteq> m \<Longrightarrow> handleSort m c ss m' = ss m'"
  by (simp add: handleSort_def Let_def)

lemma getSortedAgencies_cong:
  "ss m = ss' m \<Longrightarrow> getSortedAgencies lc fad ss m = getSortedAgencies lc fad ss' m"
  by (simp add: getSortedAgencies_def)

lemma table_rows_r2_other:
  "m' \<noteq> m \<Longrightarrow> table_rows_r2 lc fad st (handleSort m c ss) m' = table_rows_r2 lc fad st ss m'"
proof -
  assume "m' \<noteq> m"
  then have "handleSort m c ss m' = ss m'"
    by (rule handleSort_other)
  then have "getSortedAgencies lc fad (handleSort m c ss) m' = getSortedAgencies lc fad ss m'"
    by (rule getSortedAgencies_cong)
  then show ?thesis
    by (simp add: table_rows_r2_def)
qed

subsection \<open>The table sort by a column\<close>








section \<open>The top-three filter\<close>

text \<open>
  Claim C4 as stated fails where the last record of a series is not the record of its latest
  year: U has 5 words in 2025 and V has 50, yet \<open>top3\<close> puts U first, by the 100 words of
  the 2024 record that ends the series of U.
\<close>

theorem top3_unsorted_series_counterexample:
  "handleFilter_r1 [agU, agV] ''top3'' None (Some (metric_key WordCount)) st0 =
     Inr (st0\<lparr>selectedAgencies := [agU, agV], currentPage := 1\<rparr>)
   \<and> latest_year_value WordCount agU = 5 \<and> latest_year_value WordCount agV = 50
   \<and> topN_spec WordCount 3 [agU, agV] = [agV, agU]"
  by (simp add: filter_defs sample_defs agU_def agV_def topN_spec_def latest_year_value_def)

text \<open>
  Claim C4, amended. For a list of agencies that each have at least one record, the filter
  mode \<open>top3\<close> of the first copy selects the three agencies with the largest value of the
  metric in the last record of their series: the selection is the first three entries of a
  rearrangement of the list that is in descending order of that value and keeps agencies of
  equal value in their original order; the page is set to 1. Where every series is in
  ascending order of years, the last record is that of the latest year and the selection is
  the one that the specification describes.
\<close>

theorem top3_last_record:
  assumes "\<forall>a\<in>set fad. data a \<noteq> []"
  shows "handleFilter_r1 fad ''top3'' sel (Some (metric_key m)) st =
           Inr (st\<lparr>selectedAgencies := take 3 (sort_key (\<lambda>a. - last_record_value m a) fad),
                   currentPage := 1\<rparr>)
         \<and> mset (sort_key (\<lambda>a. - last_record_value m a) fad) = mset fad
         \<and> sorted_wrt (\<lambda>a b. last_record_value m b \<le> last_record_value m a)
              (sort_key (\<lambda>a. - last_record_value m a) fad)
         \<and> (\<forall>v. filter (\<lambda>a. last_record_value m a = v) (sort_key (\<lambda>a. - last_record_value m a) fad)
                = filter (\<lambda>a. last_record_value m a = v) fad)
         \<and> ((\<forall>a\<in>set fad. series_ok a) \<longrightarrow>
               take 3 (sort_key (\<lambda>a. - last_record_value m a) fad) = topN_spec m 3 fad)"
proof -
  have 1: "handleFilter_r1 fad ''top3'' sel (Some (metric_key m)) st =
           Inr (st\<lparr>selectedAgencies := take 3 (sort_key (\<lambda>a. - last_record_value m a) fad),
                   currentPage := 1\<rparr>)"
    by (simp add: handleFilter_r1_def filtered_r1_top3 [OF assms])
  have 3: "sorted_wrt (\<lambda>a b. last_record_value m b \<le> last_record_value m a)
              (sort_key (\<lambda>a. - last_record_value m a) fad)"
    using sorted_sort_key [of "\<lambda>a. - last_record_value m a" fad]
    by (simp only: sorted_desc_iff)
  have 4: "filter (\<lambda>a. last_record_value m a = v) (sort_key (\<lambda>a. - last_record_value m a) fad)
                = filter (\<lambda>a. last_record_value m a = v) fad" for v
    using sort_key_stable [of "\<lambda>a. - last_record_value m a" "- v" fad] by simp
  have 5: "take 3 (sort_key (\<lambda>a. - last_record_value m a) fad) = topN_spec m 3 fad"
    if ok: "\<forall>a\<in>set fad. series_ok a"
  proof -
    have "sort_key (\<lambda>a. - last_record_value m a) fad = sort_key (\<lambda>a. - latest_year_value m a) fad"
      by (rule sort_key_cong_set) (use ok in \<open>simp add: latest_year_value_last\<close>)
    then show ?thesis
      by (simp add: topN_spec_def)
  qed
  show ?thesis
    using 1 3 4 5 by simp
qed

theorem top3_last_record_witness:
  "data agA \<noteq> [] \<and> data agB \<noteq> [] \<and> data agC \<noteq> []
   \<and> series_ok agA \<and> series_ok agB \<and> series_ok agC
   \<and> handleFilter_r1 [agA, agB, agC] ''top3'' None (Some (metric_key WordCount)) st0 =
       Inr (st0\<lparr>selectedAgencies := [agB, agC, agA], currentPage := 1\<rparr>)
   \<and> topN_spec WordCount 3 [agA, agB, agC] = [agB, agC, agA]"
proof -
  have h: "\<forall>a\<in>set [agA, agB, agC]. data a \<noteq> []"
    by (simp add: sample_defs)
  have ok: "\<forall>a\<in>set [agA, agB, agC]. series_ok a"
    by (simp add: series_ok_def sample_defs)
  have t: "topN_spec WordCount 3 [agA, agB, agC] = [agB, agC, agA]"
    by (simp add: topN_spec_def latest_year_value_def sample_defs)
  from top3_last_record [OF h, of None WordCount st0] ok
  have "handleFilter_r1 [agA, agB, agC] ''top3'' None (Some (metric_key WordCount)) st0 =
       Inr (st0\<lparr>selectedAgencies := topN_spec WordCount 3 [agA, agB, agC], currentPage := 1\<rparr>)"
    by simp
  with h ok t show ?thesis
    by simp
qed

section \<open>Top three against bottom three\<close>

text \<open>
  Claim C6 as stated fails when values tie: the sort is stable, so among six agencies of the
  same sentiment both \<open>top3\<close> and \<open>bottom3\<close> select the first three of the list.
\<close>

theorem top3_bottom3_overlap_counterexample:
  "3 \<le> length tied6 \<and> 2 * 3 \<le> length tied6
   \<and> handleFilter_r1 tied6 ''top3'' None (Some (metric_key Sentiment)) st0 =
       Inr (st0\<lparr>selectedAgencies := take 3 tied6, currentPage := 1\<rparr>)
   \<and> handleFilter_r1 tied6 ''bottom3'' None (Some (metric_key Sentiment)) st0 =
       Inr (st0\<lparr>selectedAgencies := take 3 tied6, currentPage := 1\<rparr>)
   \<and> set (take 3 tied6) \<inter> set (take 3 tied6) \<noteq> {}"
  by (simp add: filter_defs sample_defs tied6_def)

text \<open>
  Claim C6, amended. For a list of at least six agencies, each with at least one record,
  whose last-record values of the metric are pairwise different, the selections of \<open>top3\<close>
  and of \<open>bottom3\<close> for that metric (first copy) have no agency in common.
\<close>

theorem top3_bottom3_disjoint:
  assumes "6 \<le> length fad"
    and "\<forall>a\<in>set fad. data a \<noteq> []"
    and "distinct (map (last_record_value m) fad)"
  shows "handleFilter_r1 fad ''top3'' sel (Some (metric_key m)) st =
           Inr (st\<lparr>selectedAgencies := take 3 (sort_key (\<lambda>a. - last_record_value m a) fad),
                   currentPage := 1\<rparr>)
         \<and> handleFilter_r1 fad ''bottom3'' sel' (Some (metric_key m)) st' =
           Inr (st'\<lparr>selectedAgencies := take 3 (sort_key (last_record_value m) fad),
                    currentPage := 1\<rparr>)
         \<and> set (take 3 (sort_key (\<lambda>a. - last_record_value m a) fad))
             \<inter> set (take 3 (sort_key (last_record_value m) fad)) = {}"
proof -
  let ?L = "sort_key (\<lambda>a. - last_record_value m a) fad"
  have d: "distinct ?L"
    using assms(3) by (simp add: distinct_map)
  have "set (take 3 ?L) \<inter> set (take 3 (rev ?L)) = {}"
    by (rule take_rev_disjoint) (use d assms(1) in simp_all)
  then have "set (take 3 ?L) \<inter> set (take 3 (sort_key (last_record_value m) fad)) = {}"
    by (simp only: sort_key_rev_distinct [OF assms(3)])
  then show ?thesis
    by (simp add: handleFilter_r1_def filtered_r1_top3 [OF assms(2)]
        filtered_r1_bottom3 [OF assms(2)])
qed

theorem top3_bottom3_disjoint_witness:
  "6 \<le> length [agA, agB, agC, agD, agF, agG]
   \<and> distinct (map (last_record_value WordCount) [agA, agB, agC, agD, agF, agG])
   \<and> handleFilter_r1 [agA, agB, agC, agD, agF, agG] ''top3'' None (Some (metric_key WordCount)) st0 =
       Inr (st0\<lparr>selectedAgencies := [agG, agF, agB], currentPage := 1\<rparr>)
   \<and> handleFilter_r1 [agA, agB, agC, agD, agF, agG] ''bottom3'' None (Some (metric_key WordCount)) st0 =
       Inr (st0\<lparr>selectedAgencies := [agD, agA, agC], currentPage := 1\<rparr>)
   \<and> set [agG, agF, agB] \<inter> set [agD, agA, agC] = {}"
proof -
  let ?six = "[agA, agB, agC, agD, agF, agG]"
  have h1: "6 \<le> length ?six"
    by simp
  have h2: "\<forall>a\<in>set ?six. data a \<noteq> []"
    by (simp add: sample_defs agF_def agG_def)
  have h3: "distinct (map (last_record_value WordCount) ?six)"
    by (simp add: last_record_value_def sample_defs agF_def agG_def)
  have t: "take 3 (sort_key (\<lambda>a. - last_record_value WordCount a) ?six) = [agG, agF, agB]"
    by (simp add: last_record_value_def sample_defs agF_def agG_def)
  have b: "take 3 (sort_key (last_record_value WordCount) ?six) = [agD, agA, agC]"
    by (simp add: last_record_value_def sample_defs agF_def agG_def)
  from top3_bottom3_disjoint [OF h1 h2 h3, of None st0 None st0] h1 h3 show ?thesis
    by (simp only: t b)
qed

section \<open>The mode \<open>all\<close>\<close>

text \<open>
  Claim C1, at a list of four agencies. The button All Agencies calls the handler with
  \<open>all\<close>, which no branch names: both copies fall to the last branch and select the first
  three agencies, not the four of the list.
\<close>

theorem all_mode_first_three:
  "handleFilter_r1 [agA, agB, agC, agD] ''all'' None None st0 =
     Inr (st0\<lparr>selectedAgencies := [agA, agB, agC], currentPage := 1\<rparr>)
   \<and> handleFilter_r2 [agA, agB, agC, agD] ''all'' None None st0 =
     Inr (st0\<lparr>selectedAgencies := [agA, agB, agC], currentPage := 1\<rparr>)
   \<and> [agA, agB, agC] \<noteq> [agA, agB, agC, agD]"
  by (simp add: filter_defs)

section \<open>Search\<close>

text \<open>
  Claim C2 as stated fails for the empty query: the search branch asks for a non-empty
  third argument, so the empty text selects what the last branch selects, here the one
  agency of the list.
\<close>

theorem search_empty_counterexample:
  "handleSearch_r1 [treasury] [] st0 =
     Inr (st0\<lparr>selectedAgencies := [treasury], currentPage := 1\<rparr>)
   \<and> [treasury] \<noteq> []"
  by (simp add: handleSearch_r1_def filter_defs toLowerCase_def)

text \<open>
  Claim C2, amended. A search with the empty text selects the first three agencies of the
  list; a search with any other text selects, in the order of the list, the agencies whose
  lower-cased name contains the lower-cased text; the page is set to 1. Both copies agree.
\<close>

theorem search_behaviour:
  "handleSearch_r1 fad query st =
     Inr (st\<lparr>selectedAgencies :=
            (if query = [] then take 3 fad
             else filter (\<lambda>a. js_includes (toLowerCase (agency a)) (toLowerCase query)) fad),
          currentPage := 1\<rparr>)
   \<and> handleSearch_r2 fad query st = handleSearch_r1 fad query st"
  by (simp add: handleSearch_r1_def handleSearch_r2_def handleFilter_r1_def handleFilter_r2_def
      filtered_r1_def filtered_r2_def filter_branches_def toLowerCase_Nil_iff js_slice_0_3)

theorem search_behaviour_witness:
  "handleSearch_r1 [agA, treasury] ''treasury'' st0 =
     Inr (st0\<lparr>selectedAgencies := [treasury], currentPage := 1\<rparr>)
   \<and> handleSearch_r1 [agA, treasury] ''TREASURY'' st0 =
     Inr (st0\<lparr>selectedAgencies := [treasury], currentPage := 1\<rparr>)"
proof -
  have 1: "toLowerCase ''treasury'' = ''treasury''"
    by code_simp
  have 2: "toLowerCase ''TREASURY'' = ''treasury''"
    by code_simp
  have 3: "toLowerCase (agency treasury) = ''department of the treasury''"
    unfolding treasury_def sample_agency_def by code_simp
  have 4: "toLowerCase (agency agA) = ''a''"
    unfolding agA_def sample_agency_def by code_simp
  show ?thesis
    using search_behaviour [of "[agA, treasury]" "''treasury''" st0]
      search_behaviour [of "[agA, treasury]" "''TREASURY''" st0]
    by (simp add: 1 2 3 4)
qed

section \<open>What the tables show after a filter\<close>

text \<open>
  Claim C3 as stated fails: after the filter \<open>specific\<close> has selected the agency B alone,
  the table of either copy still lists the four agencies of the dataset, where sorting and
  slicing the selection would list B only.
\<close>

theorem table_not_selection_counterexample:
  "handleFilter_r2 [agA, agB, agC, agD] ''specific'' (Some [''B'']) None st0 =
     Inr (st0\<lparr>selectedAgencies := [agB], currentPage := 1\<rparr>)
   \<and> table_rows_r2 sample_lc [agA, agB, agC, agD]
        (st0\<lparr>selectedAgencies := [agB], currentPage := 1\<rparr>) sortStates_init_r2 WordCount
      = Inr [agA, agB, agC, agD]
   \<and> table_rows_r2 sample_lc [agB]
        (st0\<lparr>selectedAgencies := [agB], currentPage := 1\<rparr>) sortStates_init_r2 WordCount
      = Inr [agB]
   \<and> handleFilter_r1 [agA, agB, agC, agD] ''specific'' (Some [''B'']) None st0 =
     Inr (st0\<lparr>selectedAgencies := [agB], currentPage := 1\<rparr>)
   \<and> table_rows_r1 sample_lc [agA, agB, agC, agD]
        (st0\<lparr>selectedAgencies := [agB], currentPage := 1\<rparr>) sortStates_init_r1 WordCount
      = Inr [agA, agB, agC, agD]"
  by (simp add: filter_defs table_defs sample_defs)

text \<open>
  Claim C3, amended. A filter invocation that returns stores its output as the selection
  (which the charts receive) and sets the page to 1; the rows of a table are then the first
  page of the year-restricted dataset as the sort engine orders it, whatever the filter
  selected.
\<close>

theorem table_after_filter:
  "(handleFilter_r1 fad ft sel mk st = Inr st1 \<longrightarrow>
      filtered_r1 fad ft sel mk = Inr (selectedAgencies st1) \<and> currentPage st1 = 1
    \<and> table_rows_r1 lc fad st1 ss m =
        ebind (getSortedAgencies lc fad ss WordCount) (\<lambda>sorted. Inr (js_slice sorted 0 5)))
  \<and> (handleFilter_r2 fad ft sel mk st = Inr st2 \<longrightarrow>
      filtered_r2 fad ft sel mk = Inr (selectedAgencies st2) \<and> currentPage st2 = 1
    \<and> table_rows_r2 lc fad st2 ss m =
        ebind (getSortedAgencies lc fad ss m) (\<lambda>sorted. Inr (js_slice sorted 0 5)))"
  using handleFilter_r1_result [of fad ft sel mk st st1]
    handleFilter_r2_result [of fad ft sel mk st st2]
  by (simp add: table_rows_r1_def table_rows_r2_def paginatedAgencies_r1_def startIndex_def
      agenciesPerPage_def)

theorem table_after_filter_witness:
  "handleFilter_r1 [agA, agB, agC, agD] ''top3'' None (Some ''wordCount'') st0 =
     Inr (st0\<lparr>selectedAgencies := [agB, agC, agA], currentPage := 1\<rparr>)
   \<and> table_rows_r1 sample_lc [agA, agB, agC, agD]
        (st0\<lparr>selectedAgencies := [agB, agC, agA], currentPage := 1\<rparr>) sortStates_init_r1 Sentiment
      = Inr [agA, agB, agC, agD]
   \<and> handleFilter_r2 [agA, agB, agC, agD] ''top3'' None (Some ''wordCount'') st0 =
     Inr (st0\<lparr>selectedAgencies := [agB, agC, agA], currentPage := 1\<rparr>)
   \<and> table_rows_r2 sample_lc [agA, agB, agC, agD]
        (st0\<lparr>selectedAgencies := [agB, agC, agA], currentPage := 1\<rparr>) sortStates_init_r2 Sentiment
      = Inr [agA, agB, agC, agD]"
proof -
  let ?fad = "[agA, agB, agC, agD]"
  let ?st = "st0\<lparr>selectedAgencies := [agB, agC, agA], currentPage := 1\<rparr>"
  have h1: "handleFilter_r1 ?fad ''top3'' None (Some ''wordCount'') st0 = Inr ?st"
    by (simp add: filter_defs sample_defs)
  have h2: "handleFilter_r2 ?fad ''top3'' None (Some ''wordCount'') st0 = Inr ?st"
    by (simp add: filter_defs sample_defs)
  have s1: "getSortedAgencies sample_lc ?fad sortStates_init_r1 WordCount = Inr ?fad"
    by (simp add: table_defs)
  have s2: "getSortedAgencies sample_lc ?fad sortStates_init_r2 Sentiment = Inr ?fad"
    by (simp add: table_defs sample_defs)
  have sl: "js_slice ?fad 0 5 = ?fad"
    by (simp add: js_slice_def)
  have a: "table_rows_r1 sample_lc ?fad ?st sortStates_init_r1 Sentiment = Inr ?fad"
    using table_after_filter [of ?fad "''top3''" None "Some ''wordCount''" st0 ?st sample_lc
      sortStates_init_r1 Sentiment ?st] h1
    by (simp only: s1 ebind.simps sl)
  have b: "table_rows_r2 sample_lc ?fad ?st sortStates_init_r2 Sentiment = Inr ?fad"
    using table_after_filter [of ?fad "''top3''" None "Some ''wordCount''" st0 ?st sample_lc
      sortStates_init_r2 Sentiment ?st] h2
    by (simp only: s2 ebind.simps sl)
  from h1 h2 a b show ?thesis
    by simp
qed

section \<open>Exceptions of the filter\<close>

text \<open>
  Claim C5, at a dataset with an agency whose records are all of 2023. The year restriction
  leaves that agency an empty series, and \<open>top3\<close> or \<open>bottom3\<close> then reads a property of
  \<^verbatim>\<open>undefined\<close>: the handler throws a \<^verbatim>\<open>TypeError\<close> in both copies, where the table
  comparator guards the same read.
\<close>

theorem filter_throws_on_empty_series:
  "filteredAgenciesData [agE_raw, agA] = [agE, agA]
   \<and> handleFilter_r1 [agE, agA] ''top3'' None (Some ''wordCount'') st0 = Inl TypeError
   \<and> handleFilter_r1 [agE, agA] ''bottom3'' None (Some ''sentiment'') st0 = Inl TypeError
   \<and> handleFilter_r2 [agE, agA] ''top3'' None (Some ''wordCount'') st0 = Inl TypeError
   \<and> handleFilter_r2 [agE, agA] ''bottom3'' None (Some ''sentiment'') st0 = Inl TypeError
   \<and> getSortedAgencies sample_lc [agE, agA] sortStates_init_r2 WordCount = Inr [agE, agA]"
  by (simp add: filter_defs table_defs sample_defs agE_def agE_raw_def filteredAgenciesData_def)

section \<open>Pagination\<close>

text \<open>
  Claim C7 as stated fails for the empty dataset: the number of pages is 0, not 1, and the
  button Next takes page 1 to page 0.
\<close>

theorem pagination_empty_counterexample:
  "totalPages [] = 0 \<and> currentPage st0 = 1 \<and> currentPage (nextPage [] st0) = 0"
  by (simp add: totalPages_div nextPage_def st0_def)

text \<open>
  Claim C7, amended. The number of pages is the count of agencies divided by five and
  rounded up; it is at least 1 when the dataset is not empty. From a page between 1 and the
  number of pages, Previous and Next lead to a page in the same range; Previous on page 1
  and Next on the last page change nothing.
\<close>

theorem pagination_bounds:
  "int (length fad) \<le> 5 * totalPages fad \<and> 5 * (totalPages fad - 1) < int (length fad)
   \<and> (fad \<noteq> [] \<longrightarrow> 1 \<le> totalPages fad)
   \<and> (1 \<le> currentPage st \<and> currentPage st \<le> totalPages fad \<longrightarrow>
         1 \<le> currentPage (previousPage st) \<and> currentPage (previousPage st) \<le> totalPages fad
       \<and> 1 \<le> currentPage (nextPage fad st) \<and> currentPage (nextPage fad st) \<le> totalPages fad)
   \<and> (currentPage st = 1 \<longrightarrow> previousPage st = st)
   \<and> (currentPage st = totalPages fad \<longrightarrow> nextPage fad st = st)"
proof -
  have a: "int (length fad) \<le> 5 * totalPages fad" "5 * (totalPages fad - 1) < int (length fad)"
    unfolding totalPages_div by presburger+
  have b: "fad \<noteq> [] \<longrightarrow> 1 \<le> totalPages fad"
  proof
    assume "fad \<noteq> []"
    then have "0 < int (length fad)" by simp
    with a(1) show "1 \<le> totalPages fad" by linarith
  qed
  show ?thesis using a b
    by (auto simp: previousPage_def nextPage_def)
qed

theorem pagination_bounds_witness:
  "length twelve = 12 \<and> twelve \<noteq> [] \<and> totalPages twelve = 3
   \<and> currentPage (st0\<lparr>currentPage := 3\<rparr>) = totalPages twelve
   \<and> nextPage twelve (st0\<lparr>currentPage := 3\<rparr>) = st0\<lparr>currentPage := 3\<rparr>
   \<and> currentPage st0 = 1 \<and> previousPage st0 = st0
   \<and> currentPage (nextPage twelve (nextPage twelve (nextPage twelve (nextPage twelve st0)))) = 3"
proof -
  have l: "length twelve = 12"
    by (simp add: twelve_def)
  have t: "totalPages twelve = 3"
    using pagination_bounds [of twelve st0] by (simp add: l)
  have n: "nextPage twelve (st0\<lparr>currentPage := 3\<rparr>) = st0\<lparr>currentPage := 3\<rparr>"
    using pagination_bounds [of twelve "st0\<lparr>currentPage := 3\<rparr>"] by (simp add: t)
  have p: "previousPage st0 = st0"
    using pagination_bounds [of twelve st0] by (simp add: st0_def)
  have ne: "twelve \<noteq> []"
    using l by auto
  show ?thesis
    using l ne t n p by (simp add: nextPage_def st0_def)
qed

section \<open>Sort states of the four tables\<close>

text \<open>
  Claim C8, at three agencies in the first copy. A click on the 2024 column of the word
  count table reorders the rows of the sentiment table, and a click on the 2024 column of
  the sentiment table leaves the rows of the sentiment table as they were: every table of
  the first copy shows the rows sorted by the word count table's state. In the second copy
  each table follows its own state.
\<close>

theorem tables_share_rows_r1:
  "table_rows_r1 sample_lc [agA, agB, agC] st0 sortStates_init_r1 Sentiment = Inr [agA, agB, agC]
   \<and> table_rows_r1 sample_lc [agA, agB, agC] st0
        (handleSort WordCount (ColYear 2024) sortStates_init_r1) Sentiment = Inr [agA, agC, agB]
   \<and> table_rows_r1 sample_lc [agA, agB, agC] st0
        (handleSort Sentiment (ColYear 2024) sortStates_init_r1) Sentiment = Inr [agA, agB, agC]
   \<and> table_rows_r2 sample_lc [agA, agB, agC] st0 sortStates_init_r1 Sentiment = Inr [agA, agB, agC]
   \<and> table_rows_r2 sample_lc [agA, agB, agC] st0
        (handleSort WordCount (ColYear 2024) sortStates_init_r1) Sentiment = Inr [agA, agB, agC]
   \<and> table_rows_r2 sample_lc [agA, agB, agC] st0
        (handleSort Sentiment (ColYear 2024) sortStates_init_r1) Sentiment = Inr [agA, agC, agB]"
  by (simp add: table_defs sample_defs)

section \<open>Sorting by the same column three times\<close>




section \<open>The two copies of the filter\<close>

text \<open>
  Claim C10, at two agencies whose series have two records and one record. The second copy
  reads the record of \<open>b\<close> at the index of the last record of \<open>a\<close>: called on (Y, X) its
  comparator takes the 2024 value of X where the first copy takes the 2025 value, and
  called on (X, Y) it reads past the series of Y and throws. Whichever of the two calls the
  sort makes, the second copy does not return what the first returns.
\<close>

theorem copies_differ:
  "cmp_top3_r1 ''wordCount'' agY agX = Inr (Some (- 49))
   \<and> cmp_top3_r2 ''wordCount'' agY agX = Inr (Some 50)
   \<and> cmp_top3_r1 ''wordCount'' agX agY = Inr (Some 49)
   \<and> cmp_top3_r2 ''wordCount'' agX agY = Inl TypeError
   \<and> cmp_bottom3_r1 ''wordCount'' agY agX = Inr (Some 49)
   \<and> cmp_bottom3_r2 ''wordCount'' agY agX = Inr (Some (- 50))
   \<and> filtered_r1 [agX, agY] ''top3'' None (Some ''wordCount'') = Inr [agY, agX]
   \<and> filtered_r2 [agX, agY] ''top3'' None (Some ''wordCount'') \<noteq> Inr [agY, agX]
   \<and> filtered_r1 [agY, agX] ''top3'' None (Some ''wordCount'') = Inr [agY, agX]
   \<and> filtered_r2 [agY, agX] ''top3'' None (Some ''wordCount'') \<noteq> Inr [agY, agX]"
  by (simp add: filter_defs sample_defs agX_def agY_def)

end
